theory Spec2Isabelle
  imports Main "HOL-Library.Word"
begin

unbundle bit_operations_syntax

section \<open>The SP pipe over a byte stream (conn.go)\<close>

text \<open>
  The file conn.go implements a message pipe on top of a \<^verbatim>\<open>net.Conn\<close>: a fixed
  8-byte handshake, and frames made of a 64-bit big-endian length followed by the
  payload. The embedding below follows the Go code function by function. The two
  mutexes \<^verbatim>\<open>rlock\<close> and \<^verbatim>\<open>wlock\<close> have no counterpart: every function is modelled as one
  uninterrupted call.
\<close>

subsection \<open>Errors\<close>

text \<open>
  Errors reported by the byte stream itself. \<^verbatim>\<open>EOF\<close> and \<^verbatim>\<open>ErrUnexpectedEOF\<close> are the two
  values of package io that \<^verbatim>\<open>io.ReadFull\<close> distinguishes, \<^verbatim>\<open>ErrClosed\<close> is the error of
  an operation on a closed connection, and \<^verbatim>\<open>NetErr\<close> stands for any other transport
  error, identified by a number.
\<close>

datatype ioerr = EOF | ErrUnexpectedEOF | ErrClosed | NetErr nat

text \<open>
  Modelled from the spec: the error values \<^verbatim>\<open>ErrTooLong\<close>, \<^verbatim>\<open>ErrBadHeader\<close> and
  \<^verbatim>\<open>ErrBadVersion\<close> are declared elsewhere in package sp; the spec names them "message too
  long", "bad header" and "bad version". \<open>IOErr e\<close> is the stream's error \<open>e\<close>
  itself, seen at Go's interface type \<^verbatim>\<open>error\<close>.
\<close>

datatype error = IOErr ioerr | ErrTooLong | ErrBadHeader | ErrBadVersion

subsection \<open>The byte stream\<close>

type_synonym byte = "8 word"

text \<open>
  The \<^verbatim>\<open>net.Conn\<close> the pipe owns, as far as the pipe can observe it:
  \<^item> \<open>rbuf\<close>: the bytes the peer sends that have not been read yet;
  \<^item> \<open>rerr\<close>: the error a read meets once \<open>rbuf\<close> is used up (\<open>EOF\<close> when the
    peer has shut down in order);
  \<^item> \<open>wbuf\<close>: the bytes written to the peer so far;
  \<^item> \<open>wfaults\<close>: the outcome of the coming calls of \<^verbatim>\<open>Write\<close>, one entry a call:
    \<open>None\<close> for a call that writes everything, \<open>Some (n, e)\<close> for a call that
    fails with \<open>e\<close> after at most \<open>n\<close> bytes; calls beyond the list succeed;
  \<^item> \<open>closed\<close>: whether \<^verbatim>\<open>Close\<close> has been called.
\<close>

record stream =
  rbuf :: "byte list"
  rerr :: ioerr
  wbuf :: "byte list"
  wfaults :: "(nat \<times> ioerr) option list"
  closed :: bool

definition next_fault :: "stream \<Rightarrow> (nat \<times> ioerr) option" where
  "next_fault s = (case wfaults s of [] \<Rightarrow> None | f # _ \<Rightarrow> f)"

text \<open>\<^verbatim>\<open>c.Write(bs)\<close>: the error (\<open>None\<close> is \<^verbatim>\<open>nil\<close>) and the stream afterwards.\<close>

definition stream_Write :: "stream \<Rightarrow> byte list \<Rightarrow> ioerr option \<times> stream" where
  "stream_Write s bs =
     (if closed s then (Some ErrClosed, s)
      else case next_fault s of
        None \<Rightarrow> (None, s\<lparr>wbuf := wbuf s @ bs, wfaults := tl (wfaults s)\<rparr>)
      | Some (n, e) \<Rightarrow>
          (Some e, s\<lparr>wbuf := wbuf s @ take n bs, wfaults := tl (wfaults s)\<rparr>))"

text \<open>\<^verbatim>\<open>c.Close()\<close>: closing twice reports an error and leaves the stream closed.\<close>

definition stream_Close :: "stream \<Rightarrow> ioerr option \<times> stream" where
  "stream_Close s = (if closed s then Some ErrClosed else None, s\<lparr>closed := True\<rparr>)"

text \<open>
  \<^verbatim>\<open>io.ReadFull(c, buf)\<close> with \<open>n = len(buf)\<close>. A buffer of length 0 is filled without
  any call of \<^verbatim>\<open>Read\<close>. Otherwise the bytes come from \<open>rbuf\<close>; when there are fewer
  than \<open>n\<close>, they are consumed and the result is the stream's error, where
  \<^verbatim>\<open>io.ReadFull\<close> turns \<open>EOF\<close> after a partial read into \<open>ErrUnexpectedEOF\<close>.
\<close>

definition ReadFull :: "stream \<Rightarrow> nat \<Rightarrow> (ioerr + byte list) \<times> stream" where
  "ReadFull s n =
     (if n = 0 then (Inr [], s)
      else if closed s then (Inl ErrClosed, s)
      else if n \<le> length (rbuf s) then (Inr (take n (rbuf s)), s\<lparr>rbuf := drop n (rbuf s)\<rparr>)
      else (Inl (if rerr s = EOF \<and> rbuf s \<noteq> [] then ErrUnexpectedEOF else rerr s),
            s\<lparr>rbuf := []\<rparr>))"

subsection \<open>Big-endian integers (encoding/binary)\<close>

text \<open>\<^verbatim>\<open>binary.BigEndian.PutUint64\<close> and \<^verbatim>\<open>Uint64\<close>, and the same for 16 bits.\<close>

definition PutUint64 :: "64 word \<Rightarrow> byte list" where
  "PutUint64 v = [ucast (drop_bit 56 v), ucast (drop_bit 48 v), ucast (drop_bit 40 v),
     ucast (drop_bit 32 v), ucast (drop_bit 24 v), ucast (drop_bit 16 v),
     ucast (drop_bit 8 v), ucast v]"

definition Uint64 :: "byte list \<Rightarrow> 64 word" where
  "Uint64 b = ucast (b ! 7) OR push_bit 8 (ucast (b ! 6)) OR push_bit 16 (ucast (b ! 5))
     OR push_bit 24 (ucast (b ! 4)) OR push_bit 32 (ucast (b ! 3))
     OR push_bit 40 (ucast (b ! 2)) OR push_bit 48 (ucast (b ! 1))
     OR push_bit 56 (ucast (b ! 0))"

definition PutUint16 :: "16 word \<Rightarrow> byte list" where
  "PutUint16 v = [ucast (drop_bit 8 v), ucast v]"

definition Uint16 :: "byte list \<Rightarrow> 16 word" where
  "Uint16 b = ucast (b ! 1) OR push_bit 8 (ucast (b ! 0))"

text \<open>\<^verbatim>\<open>binary.Write(c, binary.BigEndian, l)\<close> for a \<^verbatim>\<open>uint64\<close>: one call of \<^verbatim>\<open>Write\<close>.\<close>

definition binary_Write_uint64 :: "stream \<Rightarrow> 64 word \<Rightarrow> ioerr option \<times> stream" where
  "binary_Write_uint64 s l = stream_Write s (PutUint64 l)"

text \<open>
  \<^verbatim>\<open>binary.Read(c, binary.BigEndian, &sz)\<close> for an \<^verbatim>\<open>int64\<close>: \<^verbatim>\<open>io.ReadFull\<close> of 8 bytes,
  then the decoding. The 64 bits are kept as a word; the code reads them as signed.
\<close>

definition binary_Read_int64 :: "stream \<Rightarrow> (ioerr + 64 word) \<times> stream" where
  "binary_Read_int64 s =
     (case ReadFull s 8 of
        (Inl e, s') \<Rightarrow> (Inl e, s')
      | (Inr bs, s') \<Rightarrow> (Inr (Uint64 bs), s'))"

subsection \<open>The handshake header\<close>

record connHeader =
  Zero :: byte
  S :: byte
  P :: byte
  Version :: byte
  Proto :: "16 word"
  Rsvd :: "16 word"

text \<open>
  \<^verbatim>\<open>binary.Write\<close> and \<^verbatim>\<open>binary.Read\<close> of a \<^verbatim>\<open>connHeader\<close>: the fields in declaration
  order, the two 16-bit fields big-endian, 8 bytes in all, in one \<^verbatim>\<open>Write\<close> and one
  \<^verbatim>\<open>io.ReadFull\<close>.
\<close>

definition encode_connHeader :: "connHeader \<Rightarrow> byte list" where
  "encode_connHeader h =
     [Zero h, S h, P h, Version h] @ PutUint16 (Proto h) @ PutUint16 (Rsvd h)"

definition decode_connHeader :: "byte list \<Rightarrow> connHeader" where
  "decode_connHeader b =
     \<lparr>Zero = b ! 0, S = b ! 1, P = b ! 2, Version = b ! 3,
      Proto = Uint16 [b ! 4, b ! 5], Rsvd = Uint16 [b ! 6, b ! 7]\<rparr>"

definition binary_Write_connHeader :: "stream \<Rightarrow> connHeader \<Rightarrow> ioerr option \<times> stream" where
  "binary_Write_connHeader s h = stream_Write s (encode_connHeader h)"

definition binary_Read_connHeader :: "stream \<Rightarrow> (ioerr + connHeader) \<times> stream" where
  "binary_Read_connHeader s =
     (case ReadFull s 8 of
        (Inl e, s') \<Rightarrow> (Inl e, s')
      | (Inr bs, s') \<Rightarrow> (Inr (decode_connHeader bs), s'))"

subsection \<open>Messages and the pipe\<close>

text \<open>
  Modelled from the spec: the type \<^verbatim>\<open>Message\<close> is declared elsewhere in package sp;
  conn.go uses its fields \<^verbatim>\<open>Header\<close> and \<^verbatim>\<open>Body\<close>, which the spec describes as two
  ordered sequences of bytes.
\<close>

record Message =
  Header :: "byte list"
  Body :: "byte list"

record conn =
  conn :: stream
  rproto :: "16 word"
  lproto :: "16 word"
  "open" :: bool

text \<open>
  \<^verbatim>\<open>Recv\<close>: the result is the error or the message, together with the pipe afterwards
  (whose stream the call has advanced or closed). \<^verbatim>\<open>sz\<close> is an \<^verbatim>\<open>int64\<close>, so both
  comparisons are signed. \<^verbatim>\<open>Message{Body: make([]byte, sz)}\<close> leaves the header empty.
\<close>

definition Recv :: "conn \<Rightarrow> (error + Message) \<times> conn" where
  "Recv p =
     (case binary_Read_int64 (conn p) of
        (Inl err, s1) \<Rightarrow> (Inl (IOErr err), p\<lparr>conn := s1\<rparr>)
      | (Inr sz, s1) \<Rightarrow>
          if 1024 * 1024 <s sz \<or> sz <s 0
          then (Inl ErrTooLong, p\<lparr>conn := snd (stream_Close s1)\<rparr>)
          else (case ReadFull s1 (nat (sint sz)) of
                  (Inl err, s2) \<Rightarrow> (Inl (IOErr err), p\<lparr>conn := s2\<rparr>)
                | (Inr body, s2) \<Rightarrow> (Inr \<lparr>Header = [], Body = body\<rparr>, p\<lparr>conn := s2\<rparr>)))"

text \<open>
  \<^verbatim>\<open>Send\<close>: the error (\<open>None\<close> is \<^verbatim>\<open>nil\<close>) and the pipe afterwards. The local buffer
  \<^verbatim>\<open>h\<close> that the code fills with \<^verbatim>\<open>putUint64\<close> is never read again and is left out.
  \<^verbatim>\<open>uint64(len(msg.Header) + len(msg.Body))\<close> is the sum as a 64-bit word.
\<close>

definition Send :: "conn \<Rightarrow> Message \<Rightarrow> error option \<times> conn" where
  "Send p msg =
     (let l = (of_nat (length (Header msg) + length (Body msg)) :: 64 word) in
      case binary_Write_uint64 (conn p) l of
        (Some err, s1) \<Rightarrow> (Some (IOErr err), p\<lparr>conn := s1\<rparr>)
      | (None, s1) \<Rightarrow>
          (case stream_Write s1 (Header msg) of
             (Some err, s2) \<Rightarrow> (Some (IOErr err), p\<lparr>conn := s2\<rparr>)
           | (None, s2) \<Rightarrow>
               (case stream_Write s2 (Body msg) of
                  (Some err, s3) \<Rightarrow> (Some (IOErr err), p\<lparr>conn := s3\<rparr>)
                | (None, s3) \<Rightarrow> (None, p\<lparr>conn := s3\<rparr>))))"

definition LocalProtocol :: "conn \<Rightarrow> 16 word" where
  "LocalProtocol p = lproto p"

definition RemoteProtocol :: "conn \<Rightarrow> 16 word" where
  "RemoteProtocol p = rproto p"

definition Close :: "conn \<Rightarrow> ioerr option \<times> conn" where
  "Close p =
     (let p1 = p\<lparr>open := False\<rparr>
      in (fst (stream_Close (conn p1)), p1\<lparr>conn := snd (stream_Close (conn p1))\<rparr>))"

definition IsOpen :: "conn \<Rightarrow> bool" where
  "IsOpen p = open p"

text \<open>
  \<^verbatim>\<open>handshake\<close>: write the local header, read the peer's, check it. The write's error
  path returns at once; the three other error paths call \<^verbatim>\<open>p.conn.Close()\<close> first.
\<close>

definition handshake :: "conn \<Rightarrow> error option \<times> conn" where
  "handshake p =
     (let h = \<lparr>Zero = 0, S = 0x53, P = 0x50, Version = 0, Proto = lproto p, Rsvd = 0\<rparr> in
      case binary_Write_connHeader (conn p) h of
        (Some err, s1) \<Rightarrow> (Some (IOErr err), p\<lparr>conn := s1\<rparr>)
      | (None, s1) \<Rightarrow>
          (case binary_Read_connHeader s1 of
             (Inl err, s2) \<Rightarrow> (Some (IOErr err), p\<lparr>conn := snd (stream_Close s2)\<rparr>)
           | (Inr h, s2) \<Rightarrow>
               if Zero h \<noteq> 0 \<or> S h \<noteq> 0x53 \<or> P h \<noteq> 0x50 \<or> Rsvd h \<noteq> 0
               then (Some ErrBadHeader, p\<lparr>conn := snd (stream_Close s2)\<rparr>)
               else if Version h \<noteq> 0
               then (Some ErrBadVersion, p\<lparr>conn := snd (stream_Close s2)\<rparr>)
               else (None, p\<lparr>conn := s2, rproto := Proto h, open := True\<rparr>)))"

text \<open>
  \<^verbatim>\<open>NewConnPipe\<close>: \<open>Inl\<close> is the pair \<^verbatim>\<open>(nil, err)\<close>, \<open>Inr\<close> the pair \<^verbatim>\<open>(p, nil)\<close>. The
  second component is the caller's stream after the call: the handshake has used it also
  when no pipe is returned. The fields the composite literal leaves out are zero.
\<close>

definition NewConnPipe :: "stream \<Rightarrow> 16 word \<Rightarrow> (error + conn) \<times> stream" where
  "NewConnPipe c lp =
     (let p = \<lparr>conn = c, rproto = 0, lproto = lp, open = False\<rparr> in
      case handshake p of
        (Some err, p') \<Rightarrow> (Inl err, conn p')
      | (None, p') \<Rightarrow> (Inr p', conn p'))"

text \<open>A stream on which the next \<open>k\<close> calls of \<^verbatim>\<open>Write\<close> succeed.\<close>

definition writes_ok :: "stream \<Rightarrow> nat \<Rightarrow> bool" where
  "writes_ok s k = (\<not> closed s \<and> list_all (\<lambda>f. f = None) (take k (wfaults s)))"

section \<open>Big-endian encoding and decoding are inverse\<close>

lemma byte_slice_bit:
  "bit (push_bit k (ucast (ucast (drop_bit k (v::64 word)) :: byte) :: 64 word)) n
     = (k \<le> n \<and> n < k + 8 \<and> n < 64 \<and> bit v n)"
  by (auto simp add: bit_simps)

lemma Uint64_PutUint64: "Uint64 (PutUint64 v) = v"
proof (rule bit_word_eqI)
  fix n assume n: "n < LENGTH(64)"
  have b0: "bit (ucast (ucast v :: byte) :: 64 word) n = (n < 8 \<and> bit v n)"
    using byte_slice_bit [of 0 v n] by (auto simp: bit_simps)
  have eq: "Uint64 (PutUint64 v) =
      ucast (ucast v :: byte) OR push_bit 8 (ucast (ucast (drop_bit 8 v) :: byte))
      OR push_bit 16 (ucast (ucast (drop_bit 16 v) :: byte))
      OR push_bit 24 (ucast (ucast (drop_bit 24 v) :: byte))
      OR push_bit 32 (ucast (ucast (drop_bit 32 v) :: byte))
      OR push_bit 40 (ucast (ucast (drop_bit 40 v) :: byte))
      OR push_bit 48 (ucast (ucast (drop_bit 48 v) :: byte))
      OR push_bit 56 (ucast (ucast (drop_bit 56 v) :: byte))"
    by (simp add: Uint64_def PutUint64_def)
  have "bit (Uint64 (PutUint64 v)) n =
     ((n < 8 \<or> (8 \<le> n \<and> n < 16) \<or> (16 \<le> n \<and> n < 24) \<or> (24 \<le> n \<and> n < 32)
       \<or> (32 \<le> n \<and> n < 40) \<or> (40 \<le> n \<and> n < 48) \<or> (48 \<le> n \<and> n < 56)
       \<or> (56 \<le> n \<and> n < 64)) \<and> bit v n)"
    unfolding eq bit_or_iff byte_slice_bit b0 using n by auto
  moreover have "n < 8 \<or> (8 \<le> n \<and> n < 16) \<or> (16 \<le> n \<and> n < 24) \<or> (24 \<le> n \<and> n < 32)
       \<or> (32 \<le> n \<and> n < 40) \<or> (40 \<le> n \<and> n < 48) \<or> (48 \<le> n \<and> n < 56)
       \<or> (56 \<le> n \<and> n < 64)"
    using n by simp arith
  ultimately show "bit (Uint64 (PutUint64 v)) n = bit v n" by simp
qed

lemma length_PutUint64: "length (PutUint64 v) = 8"
  by (simp add: PutUint64_def)

lemma sint_of_nat_64:
  assumes "n < 2 ^ 63"
  shows "sint (of_nat n :: 64 word) = int n"
  using assms by (simp add: signed_of_nat signed_take_bit_int_eq_self)

section \<open>The stream operations on a healthy stream\<close>

lemma stream_Write_ok:
  assumes "writes_ok s (Suc k)"
  shows "stream_Write s bs = (None, s\<lparr>wbuf := wbuf s @ bs, wfaults := tl (wfaults s)\<rparr>)"
    and "writes_ok (s\<lparr>wbuf := wbuf s @ bs, wfaults := tl (wfaults s)\<rparr>) k"
  using assms
  by (cases "wfaults s"; simp add: writes_ok_def stream_Write_def next_fault_def)+

lemma Send_ok:
  assumes "writes_ok (conn p) 3"
  shows "Send p m = (None, p\<lparr>conn := (conn p)\<lparr>
            wbuf := wbuf (conn p)
              @ PutUint64 (of_nat (length (Header m) + length (Body m))) @ Header m @ Body m,
            wfaults := drop 3 (wfaults (conn p))\<rparr>\<rparr>)"
proof -
  let ?s = "conn p"
  let ?l = "PutUint64 (of_nat (length (Header m) + length (Body m)))"
  let ?s1 = "?s\<lparr>wbuf := wbuf ?s @ ?l, wfaults := tl (wfaults ?s)\<rparr>"
  let ?s2 = "?s1\<lparr>wbuf := wbuf ?s1 @ Header m, wfaults := tl (wfaults ?s1)\<rparr>"
  let ?s3 = "?s2\<lparr>wbuf := wbuf ?s2 @ Body m, wfaults := tl (wfaults ?s2)\<rparr>"
  from assms have ok3: "writes_ok ?s (Suc 2)" by (simp add: numeral_3_eq_3 numeral_2_eq_2)
  have w1: "stream_Write ?s ?l = (None, ?s1)" and ok2: "writes_ok ?s1 (Suc 1)"
    using stream_Write_ok [OF ok3, of ?l] by (simp_all add: numeral_2_eq_2)
  have w2: "stream_Write ?s1 (Header m) = (None, ?s2)" and ok1: "writes_ok ?s2 (Suc 0)"
    using stream_Write_ok [OF ok2, of "Header m"] by simp_all
  have w3: "stream_Write ?s2 (Body m) = (None, ?s3)"
    using stream_Write_ok(1) [OF ok1, of "Body m"] by simp
  have d: "tl (tl (tl (wfaults ?s))) = drop 3 (wfaults ?s)"
    by (simp add: drop_Suc numeral_3_eq_3 tl_drop)
  show ?thesis
    unfolding Send_def Let_def binary_Write_uint64_def w1 w2 w3 prod.case option.case
    by (simp add: d del: of_nat_add)
qed

lemma ReadFull_enough:
  assumes "\<not> closed s" and "rbuf s = bs @ rest" and "length bs = n"
  shows "ReadFull s n = (Inr bs, s\<lparr>rbuf := rest\<rparr>)"
  using assms by (cases "n = 0") (auto simp add: ReadFull_def)

lemma Recv_frame:
  assumes "\<not> closed (conn q)" and "rbuf (conn q) = bs @ rest" and "length bs = 8"
  shows "Recv q =
     (if 1048576 <s Uint64 bs \<or> Uint64 bs <s 0
      then (Inl ErrTooLong, q\<lparr>conn := (conn q)\<lparr>rbuf := rest, closed := True\<rparr>\<rparr>)
      else case ReadFull ((conn q)\<lparr>rbuf := rest\<rparr>) (nat (sint (Uint64 bs))) of
             (Inl err, s2) \<Rightarrow> (Inl (IOErr err), q\<lparr>conn := s2\<rparr>)
           | (Inr body, s2) \<Rightarrow> (Inr \<lparr>Header = [], Body = body\<rparr>, q\<lparr>conn := s2\<rparr>))"
  using ReadFull_enough [OF assms]
  by (simp add: Recv_def binary_Read_int64_def stream_Close_def)

section \<open>Framing\<close>

text \<open>
  Claim C1 (round-trip framing). Let the sender's stream be open with its next three
  writes succeeding, and let the receiver's stream be open and hold, as its unread input,
  exactly the bytes that \<open>Send\<close> of the message with header \<open>H\<close> and body \<open>B\<close> has put
  on the wire, followed by any later bytes \<open>rest\<close>. If \<open>length H + length B\<close> is at most
  1,048,576, then \<open>Send\<close> returns no error and \<open>Recv\<close> returns a message with an empty
  header whose body is \<open>H @ B\<close>, leaving exactly \<open>rest\<close> unread.
\<close>

theorem Send_Recv_roundtrip:
  assumes bound: "length H + length B \<le> 1048576"
    and snd_ok: "writes_ok (conn p) 3"
    and rcv_open: "\<not> closed (conn q)"
    and wire: "rbuf (conn q) =
       drop (length (wbuf (conn p))) (wbuf (conn (snd (Send p \<lparr>Header = H, Body = B\<rparr>)))) @ rest"
  shows "fst (Send p \<lparr>Header = H, Body = B\<rparr>) = None
       \<and> fst (Recv q) = Inr \<lparr>Header = [], Body = H @ B\<rparr>
       \<and> rbuf (conn (snd (Recv q))) = rest"
proof -
  let ?n = "length H + length B"
  let ?L = "PutUint64 (of_nat ?n)"
  have sent: "Send p \<lparr>Header = H, Body = B\<rparr> = (None, p\<lparr>conn := (conn p)\<lparr>
            wbuf := wbuf (conn p) @ ?L @ H @ B, wfaults := drop 3 (wfaults (conn p))\<rparr>\<rparr>)"
    using Send_ok [OF snd_ok, of "\<lparr>Header = H, Body = B\<rparr>"] by simp
  have rb: "rbuf (conn q) = ?L @ ((H @ B) @ rest)"
    using wire by (simp add: sent)
  have n63: "?n < 2 ^ 63" using bound by simp
  have si: "sint (Uint64 ?L) = int ?n"
    by (simp only: Uint64_PutUint64 sint_of_nat_64 [OF n63])
  have acc: "\<not> (1048576 <s Uint64 ?L \<or> Uint64 ?L <s 0)"
    using bound by (simp only: word_sless_alt si) simp
  have nn: "nat (sint (Uint64 ?L)) = ?n"
    by (simp only: si nat_int)
  have rd: "ReadFull ((conn q)\<lparr>rbuf := (H @ B) @ rest\<rparr>) (nat (sint (Uint64 ?L)))
      = (Inr (H @ B), (conn q)\<lparr>rbuf := rest\<rparr>)"
    unfolding nn
    using ReadFull_enough [of "(conn q)\<lparr>rbuf := (H @ B) @ rest\<rparr>" "H @ B" rest ?n] rcv_open
    by simp
  have "Recv q = (Inr \<lparr>Header = [], Body = H @ B\<rparr>, q\<lparr>conn := (conn q)\<lparr>rbuf := rest\<rparr>\<rparr>)"
    using Recv_frame [OF rcv_open rb length_PutUint64] acc rd by simp
  with sent show ?thesis by simp
qed


theorem Send_Recv_roundtrip_witness:
  "fst (Send \<lparr>conn = \<lparr>rbuf = [], rerr = EOF, wbuf = [7], wfaults = [], closed = False\<rparr>,
               rproto = 2, lproto = 1, open = True\<rparr> \<lparr>Header = [1, 2], Body = [3]\<rparr>) = None
   \<and> fst (Recv \<lparr>conn = \<lparr>rbuf = [0, 0, 0, 0, 0, 0, 0, 3, 1, 2, 3, 9], rerr = EOF, wbuf = [],
                        wfaults = [], closed = False\<rparr>,
                 rproto = 1, lproto = 2, open = True\<rparr>) = Inr \<lparr>Header = [], Body = [1, 2, 3]\<rparr>
   \<and> rbuf (conn (snd (Recv \<lparr>conn = \<lparr>rbuf = [0, 0, 0, 0, 0, 0, 0, 3, 1, 2, 3, 9], rerr = EOF,
                        wbuf = [], wfaults = [], closed = False\<rparr>,
                 rproto = 1, lproto = 2, open = True\<rparr>))) = [9]"
  using Send_Recv_roundtrip [of "[1, 2]" "[3]"
      "\<lparr>conn = \<lparr>rbuf = [], rerr = EOF, wbuf = [7], wfaults = [], closed = False\<rparr>,
               rproto = 2, lproto = 1, open = True\<rparr>"
      "\<lparr>conn = \<lparr>rbuf = [0, 0, 0, 0, 0, 0, 0, 3, 1, 2, 3, 9], rerr = EOF, wbuf = [],
                        wfaults = [], closed = False\<rparr>,
                 rproto = 1, lproto = 2, open = True\<rparr>" "[9]"]
  by (simp add: writes_ok_def Send_def binary_Write_uint64_def stream_Write_def next_fault_def
        PutUint64_def)

text \<open>
  Claim C2 (length bound in \<open>Recv\<close>). On an open stream whose unread input starts with
  the 8 bytes \<open>bs\<close>, let \<open>L\<close> be the 64-bit length they decode to, read as a signed
  number. \<open>Recv\<close> fails with \<open>ErrTooLong\<close> exactly when \<open>L\<close> is above 1,048,576 or
  negative, and the stream is closed afterwards exactly in that case. For every other
  \<open>L\<close>, 1,048,576 included, a stream that holds \<open>L\<close> more bytes gives the message made
  of them. The second theorem evaluates the code at 1,048,577 (rejected, stream closed),
  at 1,048,576 (accepted) and at the length whose signed reading is \<open>-1\<close> (rejected).
\<close>

theorem Recv_length_bound:
  assumes op: "\<not> closed (conn p)"
    and rb: "rbuf (conn p) = bs @ rest"
    and len: "length bs = 8"
  shows "(fst (Recv p) = Inl ErrTooLong) = (1048576 < sint (Uint64 bs) \<or> sint (Uint64 bs) < 0)
       \<and> closed (conn (snd (Recv p))) = (1048576 < sint (Uint64 bs) \<or> sint (Uint64 bs) < 0)
       \<and> (0 \<le> sint (Uint64 bs) \<and> sint (Uint64 bs) \<le> 1048576
            \<and> nat (sint (Uint64 bs)) \<le> length rest
          \<longrightarrow> fst (Recv p) = Inr \<lparr>Header = [], Body = take (nat (sint (Uint64 bs))) rest\<rparr>)"
proof (cases "1048576 <s Uint64 bs \<or> Uint64 bs <s 0")
  case True
  then have "Recv p = (Inl ErrTooLong, p\<lparr>conn := (conn p)\<lparr>rbuf := rest, closed := True\<rparr>\<rparr>)"
    using Recv_frame [OF op rb len] by simp
  moreover from True have "1048576 < sint (Uint64 bs) \<or> sint (Uint64 bs) < 0"
    by (simp add: word_sless_alt)
  ultimately show ?thesis by auto
next
  case False
  let ?n = "nat (sint (Uint64 bs))"
  let ?s = "(conn p)\<lparr>rbuf := rest\<rparr>"
  from False have rng: "\<not> (1048576 < sint (Uint64 bs) \<or> sint (Uint64 bs) < 0)"
    by (simp add: word_sless_alt)
  have R: "Recv p = (case ReadFull ?s ?n of
             (Inl err, s2) \<Rightarrow> (Inl (IOErr err), p\<lparr>conn := s2\<rparr>)
           | (Inr body, s2) \<Rightarrow> (Inr \<lparr>Header = [], Body = body\<rparr>, p\<lparr>conn := s2\<rparr>))"
    using Recv_frame [OF op rb len] False by simp
  have c: "\<not> closed (snd (ReadFull ?s ?n))"
    using op by (simp add: ReadFull_def)
  have e: "fst (Recv p) \<noteq> Inl ErrTooLong"
    unfolding R by (cases "ReadFull ?s ?n"; cases "fst (ReadFull ?s ?n)") auto
  have cl: "\<not> closed (conn (snd (Recv p)))"
    using c unfolding R by (cases "ReadFull ?s ?n"; cases "fst (ReadFull ?s ?n)") auto
  have ok: "?n \<le> length rest \<Longrightarrow>
      fst (Recv p) = Inr \<lparr>Header = [], Body = take ?n rest\<rparr>"
    unfolding R using op by (simp add: ReadFull_def)
  from rng e cl ok show ?thesis by simp
qed

theorem Recv_length_bound_witness:
  "fst (Recv \<lparr>conn = \<lparr>rbuf = [0, 0, 0, 0, 0, 0x10, 0, 1] @ replicate 1048577 0, rerr = EOF,
                      wbuf = [], wfaults = [], closed = False\<rparr>,
               rproto = 1, lproto = 2, open = True\<rparr>) = Inl ErrTooLong
   \<and> closed (conn (snd (Recv \<lparr>conn = \<lparr>rbuf = [0, 0, 0, 0, 0, 0x10, 0, 1] @ replicate 1048577 0,
                      rerr = EOF, wbuf = [], wfaults = [], closed = False\<rparr>,
               rproto = 1, lproto = 2, open = True\<rparr>)))
   \<and> fst (Recv \<lparr>conn = \<lparr>rbuf = [0, 0, 0, 0, 0, 0x10, 0, 0] @ replicate 1048576 0, rerr = EOF,
                      wbuf = [], wfaults = [], closed = False\<rparr>,
               rproto = 1, lproto = 2, open = True\<rparr>)
       = Inr \<lparr>Header = [], Body = replicate 1048576 0\<rparr>
   \<and> \<not> closed (conn (snd (Recv \<lparr>conn = \<lparr>rbuf = [0, 0, 0, 0, 0, 0x10, 0, 0] @ replicate 1048576 0,
                      rerr = EOF, wbuf = [], wfaults = [], closed = False\<rparr>,
               rproto = 1, lproto = 2, open = True\<rparr>)))
   \<and> fst (Recv \<lparr>conn = \<lparr>rbuf = [0xFF, 0xFF, 0xFF, 0xFF, 0xFF, 0xFF, 0xFF, 0xFF], rerr = EOF,
                      wbuf = [], wfaults = [], closed = False\<rparr>,
               rproto = 1, lproto = 2, open = True\<rparr>) = Inl ErrTooLong"
proof -
  have over: "sint (Uint64 [0, 0, 0, 0, 0, 0x10, 0, 1]) = 1048577"
    by (simp add: Uint64_def)
  have edge: "sint (Uint64 [0, 0, 0, 0, 0, 0x10, 0, 0]) = 1048576"
    by (simp add: Uint64_def)
  have neg: "sint (Uint64 [0xFF, 0xFF, 0xFF, 0xFF, 0xFF, 0xFF, 0xFF, 0xFF]) = - 1"
    by (simp add: Uint64_def)
  show ?thesis
    using Recv_length_bound [of
        "\<lparr>conn = \<lparr>rbuf = [0, 0, 0, 0, 0, 0x10, 0, 1] @ replicate 1048577 0, rerr = EOF,
                      wbuf = [], wfaults = [], closed = False\<rparr>,
               rproto = 1, lproto = 2, open = True\<rparr>"
        "[0, 0, 0, 0, 0, 0x10, 0, 1]" "replicate 1048577 0"]
      Recv_length_bound [of
        "\<lparr>conn = \<lparr>rbuf = [0, 0, 0, 0, 0, 0x10, 0, 0] @ replicate 1048576 0, rerr = EOF,
                      wbuf = [], wfaults = [], closed = False\<rparr>,
               rproto = 1, lproto = 2, open = True\<rparr>"
        "[0, 0, 0, 0, 0, 0x10, 0, 0]" "replicate 1048576 0"]
      Recv_length_bound [of
        "\<lparr>conn = \<lparr>rbuf = [0xFF, 0xFF, 0xFF, 0xFF, 0xFF, 0xFF, 0xFF, 0xFF], rerr = EOF,
                      wbuf = [], wfaults = [], closed = False\<rparr>,
               rproto = 1, lproto = 2, open = True\<rparr>"
        "[0xFF, 0xFF, 0xFF, 0xFF, 0xFF, 0xFF, 0xFF, 0xFF]" "[]"]
    by (simp only: over edge neg) simp
qed

text \<open>
  Claim C6 (wire format of \<open>Send\<close> and abort on error). With \<open>L\<close> the big-endian 8 bytes
  of \<open>length (Header m) + length (Body m)\<close>: when the three writes succeed, \<open>Send\<close>
  returns no error and has appended \<open>L\<close>, then the header, then the body to the stream's
  output. When the first, second or third write fails with \<open>e\<close> after \<open>n\<close> bytes,
  \<open>Send\<close> returns \<open>e\<close>, the output ends with what was written up to that point (a
  partial frame), and no later write is attempted: the entries of \<open>wfaults\<close> after the
  failing one are untouched. On a closed stream the first write fails and nothing changes.
\<close>

theorem Send_wire_format:
  fixes p :: conn and m :: Message
  defines "s \<equiv> conn p"
    and "L \<equiv> PutUint64 (of_nat (length (Header m) + length (Body m)))"
  shows "(writes_ok s 3 \<longrightarrow>
            Send p m = (None, p\<lparr>conn := s\<lparr>wbuf := wbuf s @ L @ Header m @ Body m,
                                            wfaults := drop 3 (wfaults s)\<rparr>\<rparr>))
       \<and> (\<not> closed s \<and> wfaults s = Some (n, e) # fs \<longrightarrow>
            Send p m = (Some (IOErr e), p\<lparr>conn := s\<lparr>wbuf := wbuf s @ take n L, wfaults := fs\<rparr>\<rparr>))
       \<and> (\<not> closed s \<and> wfaults s = None # Some (n, e) # fs \<longrightarrow>
            Send p m = (Some (IOErr e),
                        p\<lparr>conn := s\<lparr>wbuf := wbuf s @ L @ take n (Header m), wfaults := fs\<rparr>\<rparr>))
       \<and> (\<not> closed s \<and> wfaults s = None # None # Some (n, e) # fs \<longrightarrow>
            Send p m = (Some (IOErr e),
                        p\<lparr>conn := s\<lparr>wbuf := wbuf s @ L @ Header m @ take n (Body m),
                                     wfaults := fs\<rparr>\<rparr>))
       \<and> (closed s \<longrightarrow> Send p m = (Some (IOErr ErrClosed), p))"
proof (intro conjI impI)
  assume "writes_ok s 3"
  then show "Send p m = (None, p\<lparr>conn := s\<lparr>wbuf := wbuf s @ L @ Header m @ Body m,
                                            wfaults := drop 3 (wfaults s)\<rparr>\<rparr>)"
    unfolding s_def L_def by (rule Send_ok)
next
  assume "\<not> closed s \<and> wfaults s = Some (n, e) # fs"
  then show "Send p m = (Some (IOErr e), p\<lparr>conn := s\<lparr>wbuf := wbuf s @ take n L, wfaults := fs\<rparr>\<rparr>)"
    unfolding s_def L_def
    by (simp add: Send_def Let_def binary_Write_uint64_def stream_Write_def next_fault_def
          del: of_nat_add)
next
  assume "\<not> closed s \<and> wfaults s = None # Some (n, e) # fs"
  then show "Send p m = (Some (IOErr e),
                        p\<lparr>conn := s\<lparr>wbuf := wbuf s @ L @ take n (Header m), wfaults := fs\<rparr>\<rparr>)"
    unfolding s_def L_def
    by (simp add: Send_def Let_def binary_Write_uint64_def stream_Write_def next_fault_def
          del: of_nat_add)
next
  assume "\<not> closed s \<and> wfaults s = None # None # Some (n, e) # fs"
  then show "Send p m = (Some (IOErr e),
                        p\<lparr>conn := s\<lparr>wbuf := wbuf s @ L @ Header m @ take n (Body m),
                                     wfaults := fs\<rparr>\<rparr>)"
    unfolding s_def L_def
    by (simp add: Send_def Let_def binary_Write_uint64_def stream_Write_def next_fault_def
          del: of_nat_add)
next
  assume "closed s"
  then show "Send p m = (Some (IOErr ErrClosed), p)"
    unfolding s_def
    by (simp add: Send_def Let_def binary_Write_uint64_def stream_Write_def)
qed


theorem Send_wire_format_witness:
  "Send \<lparr>conn = \<lparr>rbuf = [], rerr = EOF, wbuf = [], wfaults = [], closed = False\<rparr>,
          rproto = 2, lproto = 1, open = True\<rparr> \<lparr>Header = [1, 2], Body = [3]\<rparr>
     = (None, \<lparr>conn = \<lparr>rbuf = [], rerr = EOF, wbuf = [0, 0, 0, 0, 0, 0, 0, 3, 1, 2, 3],
                        wfaults = [], closed = False\<rparr>,
               rproto = 2, lproto = 1, open = True\<rparr>)
   \<and> Send \<lparr>conn = \<lparr>rbuf = [], rerr = EOF, wbuf = [], wfaults = [Some (5, NetErr 1), None],
                    closed = False\<rparr>,
          rproto = 2, lproto = 1, open = True\<rparr> \<lparr>Header = [1, 2], Body = [3]\<rparr>
     = (Some (IOErr (NetErr 1)),
        \<lparr>conn = \<lparr>rbuf = [], rerr = EOF, wbuf = [0, 0, 0, 0, 0], wfaults = [None],
                 closed = False\<rparr>,
         rproto = 2, lproto = 1, open = True\<rparr>)
   \<and> Send \<lparr>conn = \<lparr>rbuf = [], rerr = EOF, wbuf = [], wfaults = [None, Some (1, NetErr 1)],
                    closed = False\<rparr>,
          rproto = 2, lproto = 1, open = True\<rparr> \<lparr>Header = [1, 2], Body = [3]\<rparr>
     = (Some (IOErr (NetErr 1)),
        \<lparr>conn = \<lparr>rbuf = [], rerr = EOF, wbuf = [0, 0, 0, 0, 0, 0, 0, 3, 1], wfaults = [],
                 closed = False\<rparr>,
         rproto = 2, lproto = 1, open = True\<rparr>)
   \<and> Send \<lparr>conn = \<lparr>rbuf = [], rerr = EOF, wbuf = [],
                    wfaults = [None, None, Some (0, NetErr 1)], closed = False\<rparr>,
          rproto = 2, lproto = 1, open = True\<rparr> \<lparr>Header = [1, 2], Body = [3]\<rparr>
     = (Some (IOErr (NetErr 1)),
        \<lparr>conn = \<lparr>rbuf = [], rerr = EOF, wbuf = [0, 0, 0, 0, 0, 0, 0, 3, 1, 2], wfaults = [],
                 closed = False\<rparr>,
         rproto = 2, lproto = 1, open = True\<rparr>)
   \<and> fst (Send \<lparr>conn = \<lparr>rbuf = [], rerr = EOF, wbuf = [], wfaults = [], closed = True\<rparr>,
          rproto = 2, lproto = 1, open = False\<rparr> \<lparr>Header = [1, 2], Body = [3]\<rparr>)
     = Some (IOErr ErrClosed)"
proof -
  have enc: "PutUint64 3 = [0, 0, 0, 0, 0, 0, 0, 3]"
    by (simp add: PutUint64_def)
  show ?thesis
    using
      Send_wire_format [of
        "\<lparr>conn = \<lparr>rbuf = [], rerr = EOF, wbuf = [], wfaults = [], closed = False\<rparr>,
          rproto = 2, lproto = 1, open = True\<rparr>" "\<lparr>Header = [1, 2], Body = [3]\<rparr>"]
      Send_wire_format [of
        "\<lparr>conn = \<lparr>rbuf = [], rerr = EOF, wbuf = [], wfaults = [Some (5, NetErr 1), None],
                    closed = False\<rparr>,
          rproto = 2, lproto = 1, open = True\<rparr>" "\<lparr>Header = [1, 2], Body = [3]\<rparr>"
        5 "NetErr 1" "[None]"]
      Send_wire_format [of
        "\<lparr>conn = \<lparr>rbuf = [], rerr = EOF, wbuf = [], wfaults = [None, Some (1, NetErr 1)],
                    closed = False\<rparr>,
          rproto = 2, lproto = 1, open = True\<rparr>" "\<lparr>Header = [1, 2], Body = [3]\<rparr>"
        1 "NetErr 1" "[]"]
      Send_wire_format [of
        "\<lparr>conn = \<lparr>rbuf = [], rerr = EOF, wbuf = [],
                    wfaults = [None, None, Some (0, NetErr 1)], closed = False\<rparr>,
          rproto = 2, lproto = 1, open = True\<rparr>" "\<lparr>Header = [1, 2], Body = [3]\<rparr>"
        0 "NetErr 1" "[]"]
      Send_wire_format [of
        "\<lparr>conn = \<lparr>rbuf = [], rerr = EOF, wbuf = [], wfaults = [], closed = True\<rparr>,
          rproto = 2, lproto = 1, open = False\<rparr>" "\<lparr>Header = [1, 2], Body = [3]\<rparr>"
        0 "NetErr 1" "[]"]
    by (simp add: writes_ok_def enc)
qed

text \<open>
  Claim C10 (\<open>Send\<close> enforces no length bound). Whenever the three writes succeed,
  \<open>Send\<close> returns no error and puts the whole frame on the wire, whatever the length of
  the message: the statement has no hypothesis on the length. When the length is above
  1,048,576 (and within Go's \<^verbatim>\<open>int\<close>, below \<open>2 ^ 63\<close>), a receiver whose open stream holds
  the bytes just sent fails in \<open>Recv\<close> with \<open>ErrTooLong\<close> and closes its stream.
\<close>

theorem Send_no_length_bound:
  assumes ok: "writes_ok (conn p) 3"
  shows "fst (Send p m) = None
       \<and> wbuf (conn (snd (Send p m))) = wbuf (conn p)
            @ PutUint64 (of_nat (length (Header m) + length (Body m))) @ Header m @ Body m
       \<and> (1048576 < length (Header m) + length (Body m)
            \<and> length (Header m) + length (Body m) < 2 ^ 63
            \<and> \<not> closed (conn q)
            \<and> rbuf (conn q) = drop (length (wbuf (conn p))) (wbuf (conn (snd (Send p m)))) @ rest
          \<longrightarrow> fst (Recv q) = Inl ErrTooLong \<and> closed (conn (snd (Recv q))))"
proof -
  let ?n = "length (Header m) + length (Body m)"
  let ?L = "PutUint64 (of_nat ?n)"
  note sent = Send_ok [OF ok, of m]
  have "fst (Recv q) = Inl ErrTooLong \<and> closed (conn (snd (Recv q)))"
    if big: "1048576 < ?n" and n63: "?n < 2 ^ 63" and op: "\<not> closed (conn q)"
      and wire: "rbuf (conn q) = drop (length (wbuf (conn p))) (wbuf (conn (snd (Send p m)))) @ rest"
  proof -
    have rb: "rbuf (conn q) = ?L @ ((Header m @ Body m) @ rest)"
      using wire by (simp add: sent del: of_nat_add)
    have si: "sint (Uint64 ?L) = int ?n"
      by (simp only: Uint64_PutUint64 sint_of_nat_64 [OF n63])
    have rej: "1048576 <s Uint64 ?L \<or> Uint64 ?L <s 0"
      using big by (simp only: word_sless_alt si) simp
    show ?thesis
      using Recv_frame [OF op rb length_PutUint64] rej by simp
  qed
  then show ?thesis by (simp add: sent del: of_nat_add)
qed

theorem Send_no_length_bound_witness:
  "fst (Send \<lparr>conn = \<lparr>rbuf = [], rerr = EOF, wbuf = [], wfaults = [], closed = False\<rparr>,
               rproto = 2, lproto = 1, open = True\<rparr>
             \<lparr>Header = [1], Body = replicate 1048576 0\<rparr>) = None
   \<and> fst (Recv \<lparr>conn = \<lparr>rbuf = [0, 0, 0, 0, 0, 0x10, 0, 1] @ 1 # replicate 1048576 0,
                        rerr = EOF, wbuf = [], wfaults = [], closed = False\<rparr>,
                 rproto = 1, lproto = 2, open = True\<rparr>) = Inl ErrTooLong
   \<and> closed (conn (snd (Recv \<lparr>conn = \<lparr>rbuf = [0, 0, 0, 0, 0, 0x10, 0, 1] @ 1 # replicate 1048576 0,
                        rerr = EOF, wbuf = [], wfaults = [], closed = False\<rparr>,
                 rproto = 1, lproto = 2, open = True\<rparr>)))"
proof -
  have enc: "PutUint64 1048577 = [0, 0, 0, 0, 0, 0x10, 0, 1]"
    by (simp add: PutUint64_def drop_bit_eq_div)
  note inst = Send_no_length_bound [of
        "\<lparr>conn = \<lparr>rbuf = [], rerr = EOF, wbuf = [], wfaults = [], closed = False\<rparr>,
               rproto = 2, lproto = 1, open = True\<rparr>"
        "\<lparr>Header = [1], Body = replicate 1048576 0\<rparr>"
        "\<lparr>conn = \<lparr>rbuf = [0, 0, 0, 0, 0, 0x10, 0, 1] @ 1 # replicate 1048576 0,
                        rerr = EOF, wbuf = [], wfaults = [], closed = False\<rparr>,
                 rproto = 1, lproto = 2, open = True\<rparr>" "[]"]
  have sent: "wbuf (conn (snd (Send
        \<lparr>conn = \<lparr>rbuf = [], rerr = EOF, wbuf = [], wfaults = [], closed = False\<rparr>,
               rproto = 2, lproto = 1, open = True\<rparr>
        \<lparr>Header = [1], Body = replicate 1048576 0\<rparr>)))
      = [0, 0, 0, 0, 0, 0x10, 0, 1] @ 1 # replicate 1048576 0"
    using inst by (simp add: writes_ok_def enc)
  show ?thesis
    using inst by (simp add: writes_ok_def sent enc)
qed

section \<open>The handshake\<close>

subsection \<open>The 16-bit fields and the header bytes\<close>

lemma bit_byte_bound: "bit (b :: byte) n \<Longrightarrow> n < 8"
  using bit_imp_le_length [of b n] by simp

lemma bit_Uint16:
  "bit (Uint16 [a, b]) n = (if n < 8 then bit b n else n < 16 \<and> bit a (n - 8))"
  by (auto simp add: Uint16_def bit_simps dest: bit_byte_bound)

lemma Uint16_eq_0: "(Uint16 [a, b] = 0) = (a = 0 \<and> b = 0)"
proof
  assume z: "Uint16 [a, b] = 0"
  have "\<not> bit b n" for n
  proof (cases "n < 8")
    case True
    with bit_Uint16 [of a b n] z show ?thesis by simp
  next
    case False
    then show ?thesis using bit_byte_bound [of b n] by blast
  qed
  moreover have "\<not> bit a n" for n
  proof (cases "n < 8")
    case True
    with bit_Uint16 [of a b "n + 8"] z show ?thesis by simp
  next
    case False
    then show ?thesis using bit_byte_bound [of a n] by blast
  qed
  ultimately show "a = 0 \<and> b = 0"
    by (simp add: bit_eq_iff)
next
  assume "a = 0 \<and> b = 0"
  then show "Uint16 [a, b] = 0" by (simp add: Uint16_def)
qed

lemma Uint16_PutUint16: "Uint16 (PutUint16 v) = v"
proof (rule bit_word_eqI)
  fix n assume "n < LENGTH(16)"
  then show "bit (Uint16 (PutUint16 v)) n = bit v n"
    unfolding PutUint16_def bit_Uint16 by (auto simp add: bit_simps)
qed

lemma PutUint16_Uint16: "PutUint16 (Uint16 [a, b]) = [a, b]"
proof -
  have "(ucast (drop_bit 8 (Uint16 [a, b])) :: byte) = a"
    by (rule bit_word_eqI) (auto simp add: bit_simps bit_Uint16)
  moreover have "(ucast (Uint16 [a, b]) :: byte) = b"
    by (rule bit_word_eqI) (auto simp add: bit_simps bit_Uint16)
  ultimately show ?thesis by (simp add: PutUint16_def)
qed

lemma list8:
  assumes "length bs = 8"
  shows "bs = [bs ! 0, bs ! 1, bs ! 2, bs ! 3, bs ! 4, bs ! 5, bs ! 6, bs ! 7]"
proof -
  from assms obtain b0 b1 b2 b3 b4 b5 b6 b7 where "bs = [b0, b1, b2, b3, b4, b5, b6, b7]"
    by (auto simp add: eval_nat_numeral length_Suc_conv)
  then show ?thesis by simp
qed


lemma encode_local_header:
  "encode_connHeader \<lparr>Zero = 0, S = 0x53, P = 0x50, Version = 0, Proto = v, Rsvd = 0\<rparr>
     = [0, 0x53, 0x50, 0, ucast (drop_bit 8 v), ucast v, 0, 0]"
  by (simp add: encode_connHeader_def PutUint16_def)

lemma handshake_read:
  assumes ok: "writes_ok (conn p) 1"
    and rb: "rbuf (conn p) = [b0, b1, b2, b3, b4, b5, b6, b7] @ rest"
  defines "s' \<equiv> (conn p)\<lparr>wbuf := wbuf (conn p)
        @ [0, 0x53, 0x50, 0, ucast (drop_bit 8 (lproto p)), ucast (lproto p), 0, 0],
      wfaults := tl (wfaults (conn p)), rbuf := rest\<rparr>"
  shows "handshake p =
     (if b0 \<noteq> 0 \<or> b1 \<noteq> 0x53 \<or> b2 \<noteq> 0x50 \<or> b6 \<noteq> 0 \<or> b7 \<noteq> 0
      then (Some ErrBadHeader, p\<lparr>conn := s'\<lparr>closed := True\<rparr>\<rparr>)
      else if b3 \<noteq> 0 then (Some ErrBadVersion, p\<lparr>conn := s'\<lparr>closed := True\<rparr>\<rparr>)
      else (None, p\<lparr>conn := s', rproto := Uint16 [b4, b5], open := True\<rparr>))"
proof -
  let ?h = "\<lparr>Zero = 0, S = 0x53, P = 0x50, Version = 0, Proto = lproto p, Rsvd = 0\<rparr>"
  let ?s1 = "(conn p)\<lparr>wbuf := wbuf (conn p) @ encode_connHeader ?h,
      wfaults := tl (wfaults (conn p))\<rparr>"
  from ok have ok1: "writes_ok (conn p) (Suc 0)" by simp
  have w: "binary_Write_connHeader (conn p) ?h = (None, ?s1)"
    unfolding binary_Write_connHeader_def by (rule stream_Write_ok(1) [OF ok1])
  have op1: "\<not> closed ?s1" using ok by (simp add: writes_ok_def)
  have rb1: "rbuf ?s1 = [b0, b1, b2, b3, b4, b5, b6, b7] @ rest" using rb by simp
  have r: "binary_Read_connHeader ?s1 =
      (Inr \<lparr>Zero = b0, S = b1, P = b2, Version = b3, Proto = Uint16 [b4, b5],
            Rsvd = Uint16 [b6, b7]\<rparr>, ?s1\<lparr>rbuf := rest\<rparr>)"
    unfolding binary_Read_connHeader_def
    using ReadFull_enough [OF op1 rb1, of 8] by (simp add: decode_connHeader_def)
  show ?thesis
    unfolding handshake_def Let_def w r prod.case option.case sum.case s'_def
    by (simp add: stream_Close_def Uint16_eq_0 encode_local_header)
qed

lemma handshake_write_fault:
  assumes "\<not> closed (conn p)" and "wfaults (conn p) = Some (n, e) # fs"
  shows "handshake p = (Some (IOErr e), p\<lparr>conn := (conn p)\<lparr>wbuf := wbuf (conn p)
        @ take n [0, 0x53, 0x50, 0, ucast (drop_bit 8 (lproto p)), ucast (lproto p), 0, 0],
      wfaults := fs\<rparr>\<rparr>)"
  using assms
  by (simp add: handshake_def Let_def binary_Write_connHeader_def stream_Write_def
        next_fault_def encode_local_header)

lemma handshake_read_fault:
  assumes ok: "writes_ok (conn p) 1" and short: "length (rbuf (conn p)) < 8"
  shows "fst (handshake p) =
           Some (IOErr (if rerr (conn p) = EOF \<and> rbuf (conn p) \<noteq> [] then ErrUnexpectedEOF
                        else rerr (conn p)))
       \<and> closed (conn (snd (handshake p)))"
proof -
  let ?h = "\<lparr>Zero = 0, S = 0x53, P = 0x50, Version = 0, Proto = lproto p, Rsvd = 0\<rparr>"
  let ?s1 = "(conn p)\<lparr>wbuf := wbuf (conn p) @ encode_connHeader ?h,
      wfaults := tl (wfaults (conn p))\<rparr>"
  from ok have ok1: "writes_ok (conn p) (Suc 0)" by simp
  have w: "binary_Write_connHeader (conn p) ?h = (None, ?s1)"
    unfolding binary_Write_connHeader_def by (rule stream_Write_ok(1) [OF ok1])
  have op1: "\<not> closed ?s1" using ok by (simp add: writes_ok_def)
  show ?thesis
    unfolding handshake_def Let_def w prod.case option.case
    using op1 short by (simp add: binary_Read_connHeader_def ReadFull_def stream_Close_def)
qed

lemma handshake_None_D:
  assumes "fst (handshake p) = None"
  shows "writes_ok (conn p) 1 \<and> 8 \<le> length (rbuf (conn p))"
proof -
  have ok: "writes_ok (conn p) 1"
  proof (rule ccontr)
    assume "\<not> writes_ok (conn p) 1"
    then have "fst (handshake p) \<noteq> None"
      by (cases "wfaults (conn p)")
         (auto simp add: handshake_def Let_def binary_Write_connHeader_def stream_Write_def
            next_fault_def writes_ok_def)
    with assms show False by simp
  qed
  moreover have "8 \<le> length (rbuf (conn p))"
  proof (rule ccontr)
    assume "\<not> 8 \<le> length (rbuf (conn p))"
    then have "length (rbuf (conn p)) < 8" by simp
    from handshake_read_fault [OF ok this] assms show False by simp
  qed
  ultimately show ?thesis by simp
qed

lemma handshake_None_result:
  assumes hs: "handshake p = (None, p')"
  shows "lproto p' = lproto p \<and> open p'
       \<and> take 8 (rbuf (conn p)) = encode_connHeader
            \<lparr>Zero = 0, S = 0x53, P = 0x50, Version = 0, Proto = rproto p', Rsvd = 0\<rparr>"
proof -
  from hs have "fst (handshake p) = None" by simp
  then have ok: "writes_ok (conn p) 1" and len: "8 \<le> length (rbuf (conn p))"
    using handshake_None_D by blast+
  let ?bs = "take 8 (rbuf (conn p))"
  from len have "length ?bs = 8" by simp
  from list8 [OF this]
  have bs: "?bs = [?bs ! 0, ?bs ! 1, ?bs ! 2, ?bs ! 3, ?bs ! 4, ?bs ! 5, ?bs ! 6, ?bs ! 7]" .
  have "rbuf (conn p) = ?bs @ drop 8 (rbuf (conn p))" by simp
  with bs have rb: "rbuf (conn p) =
      [?bs ! 0, ?bs ! 1, ?bs ! 2, ?bs ! 3, ?bs ! 4, ?bs ! 5, ?bs ! 6, ?bs ! 7]
        @ drop 8 (rbuf (conn p))"
    by simp
  from hs [unfolded handshake_read [OF ok rb]]
  have hd: "?bs ! 0 = 0" "?bs ! 1 = 0x53" "?bs ! 2 = 0x50" "?bs ! 3 = 0" "?bs ! 6 = 0" "?bs ! 7 = 0"
    and res: "lproto p' = lproto p" "open p'" "rproto p' = Uint16 [?bs ! 4, ?bs ! 5]"
    by (auto split: if_splits)
  have "encode_connHeader
            \<lparr>Zero = 0, S = 0x53, P = 0x50, Version = 0, Proto = rproto p', Rsvd = 0\<rparr>
      = [0, 0x53, 0x50, 0, ?bs ! 4, ?bs ! 5, 0, 0]"
    using PutUint16_Uint16 [of "?bs ! 4" "?bs ! 5"]
    by (simp add: encode_connHeader_def res(3)) (simp add: PutUint16_def)
  also have "\<dots> = ?bs"
    using bs hd by metis
  finally show ?thesis using res by simp
qed

subsection \<open>Validation of the peer's header\<close>

text \<open>
  Claim C3 (validation order and errors of the handshake). Let the write of the local
  header succeed and let the peer's 8 bytes be \<open>b0 \<dots> b7\<close>. If the first byte is not
  0, or the magic bytes are not \<open>0x53\<close> ('S') and \<open>0x50\<close> ('P'), or one of the two
  trailing reserved bytes is not 0, the handshake fails with \<open>ErrBadHeader\<close> and the
  stream is closed, whatever the version byte is. It fails with \<open>ErrBadVersion\<close> (and
  closes the stream) exactly when all of those checks pass and the version byte is not 0.
\<close>

theorem handshake_validation:
  assumes ok: "writes_ok (conn p) 1"
    and rb: "rbuf (conn p) = [b0, b1, b2, b3, b4, b5, b6, b7] @ rest"
  shows "(b0 \<noteq> 0 \<or> b1 \<noteq> 0x53 \<or> b2 \<noteq> 0x50 \<or> b6 \<noteq> 0 \<or> b7 \<noteq> 0
            \<longrightarrow> fst (handshake p) = Some ErrBadHeader \<and> closed (conn (snd (handshake p))))
       \<and> (b0 = 0 \<and> b1 = 0x53 \<and> b2 = 0x50 \<and> b6 = 0 \<and> b7 = 0 \<and> b3 \<noteq> 0
            \<longrightarrow> fst (handshake p) = Some ErrBadVersion \<and> closed (conn (snd (handshake p))))
       \<and> (fst (handshake p) = Some ErrBadVersion
            \<longrightarrow> b0 = 0 \<and> b1 = 0x53 \<and> b2 = 0x50 \<and> b6 = 0 \<and> b7 = 0 \<and> b3 \<noteq> 0)"
  unfolding handshake_read [OF ok rb] by (simp split: if_splits)

theorem handshake_validation_witness:
  "fst (handshake \<lparr>conn = \<lparr>rbuf = [0, 0x58, 0x50, 0, 0, 2, 0, 0], rerr = EOF, wbuf = [],
                            wfaults = [], closed = False\<rparr>,
                   rproto = 0, lproto = 1, open = False\<rparr>) = Some ErrBadHeader
   \<and> closed (conn (snd (handshake \<lparr>conn = \<lparr>rbuf = [0, 0x58, 0x50, 0, 0, 2, 0, 0], rerr = EOF,
                            wbuf = [], wfaults = [], closed = False\<rparr>,
                   rproto = 0, lproto = 1, open = False\<rparr>)))
   \<and> fst (handshake \<lparr>conn = \<lparr>rbuf = [0, 0x53, 0x50, 1, 0, 2, 0, 0], rerr = EOF, wbuf = [],
                            wfaults = [], closed = False\<rparr>,
                   rproto = 0, lproto = 1, open = False\<rparr>) = Some ErrBadVersion
   \<and> closed (conn (snd (handshake \<lparr>conn = \<lparr>rbuf = [0, 0x53, 0x50, 1, 0, 2, 0, 0], rerr = EOF,
                            wbuf = [], wfaults = [], closed = False\<rparr>,
                   rproto = 0, lproto = 1, open = False\<rparr>)))
   \<and> fst (handshake \<lparr>conn = \<lparr>rbuf = [0, 0x53, 0x50, 1, 0, 2, 0, 7], rerr = EOF, wbuf = [],
                            wfaults = [], closed = False\<rparr>,
                   rproto = 0, lproto = 1, open = False\<rparr>) = Some ErrBadHeader"
  using
    handshake_validation [of
      "\<lparr>conn = \<lparr>rbuf = [0, 0x58, 0x50, 0, 0, 2, 0, 0], rerr = EOF, wbuf = [],
                            wfaults = [], closed = False\<rparr>,
                   rproto = 0, lproto = 1, open = False\<rparr>" 0 "0x58" "0x50" 0 0 2 0 0 "[]"]
    handshake_validation [of
      "\<lparr>conn = \<lparr>rbuf = [0, 0x53, 0x50, 1, 0, 2, 0, 0], rerr = EOF, wbuf = [],
                            wfaults = [], closed = False\<rparr>,
                   rproto = 0, lproto = 1, open = False\<rparr>" 0 "0x53" "0x50" 1 0 2 0 0 "[]"]
    handshake_validation [of
      "\<lparr>conn = \<lparr>rbuf = [0, 0x53, 0x50, 1, 0, 2, 0, 7], rerr = EOF, wbuf = [],
                            wfaults = [], closed = False\<rparr>,
                   rproto = 0, lproto = 1, open = False\<rparr>" 0 "0x53" "0x50" 1 0 2 0 7 "[]"]
  by (simp add: writes_ok_def)

text \<open>
  Claim C4 (I/O errors of the handshake). The claim asks that an I/O error of the write
  or of the read closes the stream and is returned unchanged. The read path does so
  (lemma \<open>handshake_read_fault\<close>). The write path returns the error unchanged but
  returns before any call of \<^verbatim>\<open>Close\<close>: when the first write on an open stream fails with
  \<open>e\<close>, the handshake returns \<open>e\<close> and the stream is still open afterwards.
\<close>

theorem handshake_write_error_leaves_stream_open:
  assumes "\<not> closed (conn p)" and "wfaults (conn p) = Some (n, e) # fs"
  shows "fst (handshake p) = Some (IOErr e) \<and> \<not> closed (conn (snd (handshake p)))"
  using handshake_write_fault [OF assms] assms(1) by simp

theorem handshake_write_error_leaves_stream_open_witness:
  "fst (handshake \<lparr>conn = \<lparr>rbuf = [], rerr = EOF, wbuf = [], wfaults = [Some (0, NetErr 1)],
                            closed = False\<rparr>, rproto = 0, lproto = 1, open = False\<rparr>)
     = Some (IOErr (NetErr 1))
   \<and> closed (conn (snd (handshake \<lparr>conn = \<lparr>rbuf = [], rerr = EOF, wbuf = [],
                            wfaults = [Some (0, NetErr 1)], closed = False\<rparr>,
                          rproto = 0, lproto = 1, open = False\<rparr>))) = False"
  using handshake_write_error_leaves_stream_open [of
      "\<lparr>conn = \<lparr>rbuf = [], rerr = EOF, wbuf = [], wfaults = [Some (0, NetErr 1)],
                            closed = False\<rparr>, rproto = 0, lproto = 1, open = False\<rparr>"
      0 "NetErr 1" "[]"]
  by simp

text \<open>
  Claim C5 (constructor and success of the handshake). \<open>NewConnPipe\<close> returns a pipe
  exactly when the handshake on the fresh pipe returns no error. Every pipe it returns has
  the constructor's argument as local protocol, is open, and the 8 bytes received were the
  encoding of a well-formed header whose protocol field is the pipe's remote protocol.
  Moreover, on a stream whose first write succeeds and whose input starts with the header
  of a peer with protocol number \<open>rp\<close>, a pipe is returned and its remote protocol is
  \<open>rp\<close>.
\<close>

theorem NewConnPipe_handshake:
  "(\<exists>p. fst (NewConnPipe c lp) = Inr p)
      = (fst (handshake \<lparr>conn = c, rproto = 0, lproto = lp, open = False\<rparr>) = None)
   \<and> (\<forall>p. fst (NewConnPipe c lp) = Inr p \<longrightarrow>
         LocalProtocol p = lp \<and> IsOpen p
         \<and> take 8 (rbuf c) = encode_connHeader
              \<lparr>Zero = 0, S = 0x53, P = 0x50, Version = 0, Proto = RemoteProtocol p, Rsvd = 0\<rparr>)
   \<and> (writes_ok c 1
        \<and> rbuf c = encode_connHeader
              \<lparr>Zero = 0, S = 0x53, P = 0x50, Version = 0, Proto = rp, Rsvd = 0\<rparr> @ rest
      \<longrightarrow> (\<exists>p. fst (NewConnPipe c lp) = Inr p \<and> RemoteProtocol p = rp))"
proof -
  let ?p0 = "\<lparr>conn = c, rproto = 0, lproto = lp, open = False\<rparr>"
  have new: "NewConnPipe c lp =
      (case handshake ?p0 of (Some err, p') \<Rightarrow> (Inl err, conn p')
                           | (None, p') \<Rightarrow> (Inr p', conn p'))"
    by (simp add: NewConnPipe_def Let_def)
  have iff: "(\<exists>p. fst (NewConnPipe c lp) = Inr p) = (fst (handshake ?p0) = None)"
    unfolding new by (cases "handshake ?p0"; cases "fst (handshake ?p0)") auto
  have post: "LocalProtocol p = lp \<and> IsOpen p
         \<and> take 8 (rbuf c) = encode_connHeader
              \<lparr>Zero = 0, S = 0x53, P = 0x50, Version = 0, Proto = RemoteProtocol p, Rsvd = 0\<rparr>"
    if "fst (NewConnPipe c lp) = Inr p" for p
  proof -
    from that have "handshake ?p0 = (None, p)"
      unfolding new by (cases "handshake ?p0"; cases "fst (handshake ?p0)") auto
    from handshake_None_result [OF this] show ?thesis
      by (simp add: LocalProtocol_def IsOpen_def RemoteProtocol_def)
  qed
  have reach: "\<exists>p. fst (NewConnPipe c lp) = Inr p \<and> RemoteProtocol p = rp"
    if a: "writes_ok c 1 \<and> rbuf c = encode_connHeader
              \<lparr>Zero = 0, S = 0x53, P = 0x50, Version = 0, Proto = rp, Rsvd = 0\<rparr> @ rest"
  proof -
    from a have ok: "writes_ok (conn ?p0) 1"
      and rb: "rbuf (conn ?p0) = [0, 0x53, 0x50, 0, ucast (drop_bit 8 rp), ucast rp, 0, 0] @ rest"
      by (simp_all add: encode_local_header)
    have "Uint16 [ucast (drop_bit 8 rp), ucast rp] = rp"
      using Uint16_PutUint16 [of rp] by (simp add: PutUint16_def)
    then show ?thesis
      unfolding new handshake_read [OF ok rb] by (simp add: RemoteProtocol_def)
  qed
  from iff post reach show ?thesis by blast
qed


theorem NewConnPipe_handshake_witness:
  "\<exists>p. fst (NewConnPipe \<lparr>rbuf = [0, 0x53, 0x50, 0, 0, 2, 0, 0, 5], rerr = EOF, wbuf = [],
                          wfaults = [], closed = False\<rparr> 1) = Inr p
       \<and> RemoteProtocol p = 2 \<and> LocalProtocol p = 1 \<and> IsOpen p"
  using NewConnPipe_handshake [of
      "\<lparr>rbuf = [0, 0x53, 0x50, 0, 0, 2, 0, 0, 5], rerr = EOF, wbuf = [],
                          wfaults = [], closed = False\<rparr>" 1 2 "[5]"]
  by (auto simp add: writes_ok_def encode_connHeader_def PutUint16_def)

text \<open>
  Claim C7 (encoding of the handshake header). When the first write succeeds, the
  handshake has appended exactly these 8 bytes to the stream's output, however the read
  that follows ends: a zero byte, \<open>0x53\<close> ('S'), \<open>0x50\<close> ('P'), a zero version byte,
  the high and then the low byte of the local protocol number, and two zero bytes. It has
  made one call of \<^verbatim>\<open>Write\<close>.
\<close>

theorem handshake_sends_header:
  assumes ok: "writes_ok (conn p) 1"
  shows "wbuf (conn (snd (handshake p))) = wbuf (conn p)
           @ [0, 0x53, 0x50, 0, ucast (drop_bit 8 (lproto p)), ucast (lproto p), 0, 0]
       \<and> wfaults (conn (snd (handshake p))) = tl (wfaults (conn p))"
proof -
  let ?h = "\<lparr>Zero = 0, S = 0x53, P = 0x50, Version = 0, Proto = lproto p, Rsvd = 0\<rparr>"
  let ?s1 = "(conn p)\<lparr>wbuf := wbuf (conn p) @ encode_connHeader ?h,
      wfaults := tl (wfaults (conn p))\<rparr>"
  from ok have ok1: "writes_ok (conn p) (Suc 0)" by simp
  have w: "binary_Write_connHeader (conn p) ?h = (None, ?s1)"
    unfolding binary_Write_connHeader_def by (rule stream_Write_ok(1) [OF ok1])
  have rd: "wbuf (snd (ReadFull ?s1 8)) = wbuf ?s1 \<and> wfaults (snd (ReadFull ?s1 8)) = wfaults ?s1"
    by (simp add: ReadFull_def)
  show ?thesis
    unfolding handshake_def Let_def w prod.case option.case binary_Read_connHeader_def
    using rd
    by (cases "ReadFull ?s1 8"; cases "fst (ReadFull ?s1 8)")
       (auto simp add: stream_Close_def encode_local_header)
qed

theorem handshake_sends_header_witness:
  "wbuf (conn (snd (handshake \<lparr>conn = \<lparr>rbuf = [], rerr = EOF, wbuf = [9], wfaults = [],
                                      closed = False\<rparr>,
                             rproto = 0, lproto = 0x0102, open = False\<rparr>)))
     = [9, 0, 0x53, 0x50, 0, 1, 2, 0, 0]"
  using handshake_sends_header [of
      "\<lparr>conn = \<lparr>rbuf = [], rerr = EOF, wbuf = [9], wfaults = [], closed = False\<rparr>,
                             rproto = 0, lproto = 0x0102, open = False\<rparr>"]
  by (simp add: writes_ok_def)

section \<open>Closing\<close>

text \<open>
  Claim C8 (close). \<open>Close\<close> marks the pipe not open, so that \<open>IsOpen\<close> is false
  afterwards, and delegates to the stream's \<^verbatim>\<open>Close\<close>: it returns what the stream's
  \<^verbatim>\<open>Close\<close> returns and leaves the stream closed. A second \<open>Close\<close> leaves the pipe as
  the first one left it.
\<close>

theorem Close_marks_closed:
  "\<not> IsOpen (snd (Close p))
   \<and> fst (Close p) = fst (stream_Close (conn p))
   \<and> conn (snd (Close p)) = snd (stream_Close (conn p))
   \<and> closed (conn (snd (Close p)))
   \<and> snd (Close (snd (Close p))) = snd (Close p)"
  by (simp add: Close_def IsOpen_def stream_Close_def Let_def)

end
